theory Spec2Isabelle
  imports Main "HOL-Library.AList" "HOL-Library.Sublist"
begin

section \<open>Values, dictionaries and exceptions\<close>

text \<open>
  The values that travel through \<^verbatim>\<open>neonx/neo.py\<close> are JSON-encodable Python values:
  \<^verbatim>\<open>None\<close>, booleans, integers, strings, lists and dictionaries with string keys
  (floats are not needed and are left out). A Python dictionary is an
  insertion-ordered association list; \<open>AList.update\<close> is the assignment \<^verbatim>\<open>d[k] = v\<close>
  (an existing key keeps its position, a new key goes to the end) and \<open>map_of\<close> is the
  lookup.
\<close>

datatype json =
    JNull
  | JBool bool
  | JInt int
  | JStr string
  | JArr "json list"
  | JObj "(string \<times> json) list"

type_synonym props = "(string \<times> json) list"

text \<open>
  Exceptions are values. \<open>ValueError\<close> carries its message and \<open>KeyError\<close> the missing
  string key (or nothing, for a key that is not a string); \<open>Exception\<close> carries the
  \<^verbatim>\<open>args\<close> tuple. The specification's names for them are: ConfigurationError for the
  \<open>ValueError\<close>s of \<^verbatim>\<open>generate_data\<close>, ServerError for the plain \<open>Exception\<close> of
  \<^verbatim>\<open>check_exception\<close>, MalformedResponseError for the \<open>ValueError\<close> of \<^verbatim>\<open>int()\<close>.
\<close>

datatype exn =
    ValueError string
  | KeyError "string option"
  | TypeError
  | AttributeError
  | Exception "json list"

section \<open>Entity formatters\<close>

text \<open>\<^verbatim>\<open>str(i)\<close> for a non-negative integer: its decimal digits.\<close>

definition digit_char :: "nat \<Rightarrow> char" where
  "digit_char d = ''0123456789'' ! d"

fun str_nat :: "nat \<Rightarrow> string" where
  "str_nat n = (if n < 10 then [digit_char n] else str_nat (n div 10) @ [digit_char (n mod 10)])"

declare str_nat.simps [simp del]

text \<open>\<^verbatim>\<open>"{{{0}}}".format(i)\<close>: the placeholder \<^verbatim>\<open>{i}\<close>.\<close>

definition placeholder :: "nat \<Rightarrow> string" where
  "placeholder i = ''{'' @ str_nat i @ ''}''"

definition get_node :: "nat \<Rightarrow> props \<Rightarrow> json" where
  "get_node node_id properties =
     JObj [(''method'', JStr ''POST''),
           (''to'', JStr ''/node''),
           (''id'', JInt (int node_id)),
           (''body'', JObj properties)]"

definition get_relationship :: "nat \<Rightarrow> nat \<Rightarrow> json \<Rightarrow> props \<Rightarrow> json" where
  "get_relationship from_id to_id rel_name properties =
     (let body = JObj [(''to'', JStr (placeholder to_id)),
                       (''type'', rel_name),
                       (''data'', JObj properties)]
      in JObj [(''method'', JStr ''POST''),
               (''to'', JStr (placeholder from_id @ ''/relationships'')),
               (''body'', body)])"

definition get_label :: "nat \<Rightarrow> string \<Rightarrow> json" where
  "get_label i label =
     JObj [(''method'', JStr ''POST''),
           (''to'', JStr (placeholder i @ ''/labels'')),
           (''body'', JStr label)]"

section \<open>The batch request builder\<close>

text \<open>
  \<^verbatim>\<open>generate_data\<close> reads three things from a NetworkX graph: whether it is an instance
  of \<^verbatim>\<open>nx.DiGraph\<close>, the list \<^verbatim>\<open>graph.nodes(data=True)\<close> and the list
  \<^verbatim>\<open>graph.edges(data=True)\<close>. The node names are of any type \<open>'n\<close>.
\<close>

record 'n graph =
  is_digraph :: bool
  graph_nodes :: "('n \<times> props) list"
  graph_edges :: "('n \<times> 'n \<times> props) list"

text \<open>
  What NetworkX guarantees of these lists: a node is listed once, and both ends of an
  edge are nodes of the graph.
\<close>

definition wf_graph :: "'n graph \<Rightarrow> bool" where
  "wf_graph g \<longleftrightarrow>
     distinct (map fst (graph_nodes g)) \<and>
     list_all (\<lambda>(u, v, p). u \<in> fst ` set (graph_nodes g) \<and> v \<in> fst ` set (graph_nodes g)) (graph_edges g)"

text \<open>
  Lines 85 to 87: the loop over \<^verbatim>\<open>enumerate(graph.nodes(data=True))\<close>, on the pair of
  the list \<^verbatim>\<open>entities\<close> and the dictionary \<^verbatim>\<open>nodes\<close>.
\<close>

definition node_loop :: "('n \<times> props) list \<Rightarrow> json list \<times> ('n \<times> nat) list" where
  "node_loop ns =
     foldl (\<lambda>(entities, nodes) (i, (node_name, properties)).
              (entities @ [get_node i properties], AList.update node_name i nodes))
           ([], []) (enumerate 0 ns)"

text \<open>Python's truth value of the optional \<^verbatim>\<open>label\<close>: \<^verbatim>\<open>None\<close> and \<^verbatim>\<open>""\<close> are false.\<close>

fun truthy :: "string option \<Rightarrow> bool" where
  "truthy None = False"
| "truthy (Some s) = (s \<noteq> [])"

text \<open>
  Lines 89 to 91: one label request for each value of the dictionary \<^verbatim>\<open>nodes\<close>, in the
  order of insertion (the order of a dictionary since Python 3.7).
\<close>

definition label_loop :: "string option \<Rightarrow> ('n \<times> nat) list \<Rightarrow> json list \<Rightarrow> json list" where
  "label_loop label nodes entities =
     (if truthy label
      then entities @ map (\<lambda>i. get_label i (the label)) (map snd nodes)
      else entities)"

text \<open>An optional string as a value: \<^verbatim>\<open>None\<close> or the string.\<close>

fun json_of :: "string option \<Rightarrow> json" where
  "json_of None = JNull"
| "json_of (Some s) = JStr s"

text \<open>Lines 94 to 104: the relationship name of one edge.\<close>

definition resolve_ename :: "string option \<Rightarrow> string option \<Rightarrow> props \<Rightarrow> exn + json" where
  "resolve_ename edge_rel_name edge_rel_key properties =
     (case edge_rel_key of
        Some key \<Rightarrow>
          (case map_of properties key of
             Some ename \<Rightarrow> Inr ename
           | None \<Rightarrow>
               (case edge_rel_name of
                  Some name \<Rightarrow> Inr (JStr name)
                | None \<Rightarrow> Inl (ValueError ''Invalid edge label key'')))
      | None \<Rightarrow> Inr (json_of edge_rel_name))"

text \<open>\<^verbatim>\<open>nodes[name]\<close>, which raises \<open>KeyError\<close> for a name that is not a key.\<close>

definition node_ref :: "('n \<times> nat) list \<Rightarrow> 'n \<Rightarrow> exn + nat" where
  "node_ref nodes name = (case map_of nodes name of None \<Rightarrow> Inl (KeyError None) | Some i \<Rightarrow> Inr i)"

text \<open>Lines 93 to 114: the loop over \<^verbatim>\<open>graph.edges(data=True)\<close>.\<close>

fun edge_loop ::
  "bool \<Rightarrow> ('n \<times> nat) list \<Rightarrow> string option \<Rightarrow> string option \<Rightarrow>
   ('n \<times> 'n \<times> props) list \<Rightarrow> json list \<Rightarrow> exn + json list" where
  "edge_loop is_dg nodes edge_rel_name edge_rel_key [] entities = Inr entities"
| "edge_loop is_dg nodes edge_rel_name edge_rel_key ((from_node, to_node, properties) # es) entities =
     (case resolve_ename edge_rel_name edge_rel_key properties of
        Inl e \<Rightarrow> Inl e
      | Inr ename \<Rightarrow>
          (case node_ref nodes from_node of
             Inl e \<Rightarrow> Inl e
           | Inr f \<Rightarrow>
               (case node_ref nodes to_node of
                  Inl e \<Rightarrow> Inl e
                | Inr t \<Rightarrow>
                    (let entities1 = entities @ [get_relationship f t ename properties];
                         entities2 = (if \<not> is_dg
                                      then entities1 @ [get_relationship t f ename properties]
                                      else entities1)
                     in edge_loop is_dg nodes edge_rel_name edge_rel_key es entities2))))"

text \<open>
  Lines 77 to 114 of \<^verbatim>\<open>generate_data\<close>: the list \<^verbatim>\<open>entities\<close> as it stands at the
  \<^verbatim>\<open>return\<close>, or the exception raised before.
\<close>

definition entities ::
  "'n graph \<Rightarrow> string option \<Rightarrow> string option \<Rightarrow> string option \<Rightarrow> exn + json list" where
  "entities g edge_rel_name label edge_rel_key =
     (if edge_rel_name = None \<and> edge_rel_key = None
      then Inl (ValueError ''Must provide either `edge_rel_name` or `edge_rel_key`'')
      else
        (case node_loop (graph_nodes g) of
           (ents, nds) \<Rightarrow>
             edge_loop (is_digraph g) nds edge_rel_name edge_rel_key (graph_edges g)
               (label_loop label nds ents)))"

text \<open>
  Line 116: \<^verbatim>\<open>encoder.encode(entities)\<close>. The encoder is a function on the list (one
  that raises on a value it cannot encode is outside the model), and its default
  \<^verbatim>\<open>None\<close> has no \<^verbatim>\<open>encode\<close>.
\<close>

definition generate_data ::
  "'n graph \<Rightarrow> string option \<Rightarrow> string option \<Rightarrow> (json list \<Rightarrow> 'r) option \<Rightarrow> string option
   \<Rightarrow> exn + 'r" where
  "generate_data g edge_rel_name label encoder edge_rel_key =
     (case entities g edge_rel_name label edge_rel_key of
        Inl e \<Rightarrow> Inl e
      | Inr ents \<Rightarrow>
          (case encoder of
             None \<Rightarrow> Inl AttributeError
           | Some enc \<Rightarrow> Inr (enc ents)))"

section \<open>Reading the emitted requests\<close>

text \<open>
  The three kinds of request are told apart by their \<^verbatim>\<open>to\<close> path, as the repository's
  tests do (\<^verbatim>\<open>datum['to'].endswith('relationships')\<close>): a node creation posts to
  \<^verbatim>\<open>/node\<close>, a label to \<^verbatim>\<open>{i}/labels\<close>, a relationship to \<^verbatim>\<open>{i}/relationships\<close>.
\<close>

definition op_to :: "json \<Rightarrow> string" where
  "op_to op = (case op of JObj d \<Rightarrow> (case map_of d ''to'' of Some (JStr s) \<Rightarrow> s | _ \<Rightarrow> []) | _ \<Rightarrow> [])"

definition is_create_node :: "json \<Rightarrow> bool" where
  "is_create_node op \<longleftrightarrow> op_to op = ''/node''"

definition is_add_label :: "json \<Rightarrow> bool" where
  "is_add_label op \<longleftrightarrow> suffix ''/labels'' (op_to op)"

definition is_create_relationship :: "json \<Rightarrow> bool" where
  "is_create_relationship op \<longleftrightarrow> suffix ''/relationships'' (op_to op)"

text \<open>
  What a request says is read back from the emitted dictionary itself. \<open>entry\<close> is the
  entry of a dictionary under a key. A placeholder \<^verbatim>\<open>{i}\<close> is read as the number \<open>i\<close>
  between its braces.
\<close>

definition entry :: "json \<Rightarrow> string \<Rightarrow> json option" where
  "entry v k = (case v of JObj d \<Rightarrow> map_of d k | _ \<Rightarrow> None)"

definition is_digit :: "char \<Rightarrow> bool" where
  "is_digit c \<longleftrightarrow> c \<in> set ''0123456789''"

definition read_nat :: "string \<Rightarrow> nat option" where
  "read_nat s =
     (if s \<noteq> [] \<and> list_all is_digit s
      then Some (foldl (\<lambda>a c. 10 * a + (of_char c - 48)) 0 s)
      else None)"

definition read_placeholder :: "string \<Rightarrow> nat option" where
  "read_placeholder s =
     (case s of
        [] \<Rightarrow> None
      | c # r \<Rightarrow> if c = CHR ''{'' \<and> r \<noteq> [] \<and> last r = CHR ''}'' then read_nat (butlast r)
                 else None)"

text \<open>The number of the placeholder that a path puts before \<open>tail\<close>.\<close>

definition read_path :: "string \<Rightarrow> string \<Rightarrow> nat option" where
  "read_path tail s =
     (if suffix tail s then read_placeholder (take (length s - length tail) s) else None)"

text \<open>
  A relationship request \<^verbatim>\<open>{"to": "{f}/relationships", "body": {"to": "{t}", "type": ..,
  "data": ..}}\<close> starts at the node of temp-id \<open>f\<close> and ends at the node of temp-id \<open>t\<close>.
\<close>

definition request_source :: "json \<Rightarrow> nat option" where
  "request_source op = read_path ''/relationships'' (op_to op)"

definition request_target :: "json \<Rightarrow> nat option" where
  "request_target op =
     (case entry op ''body'' of
        Some b \<Rightarrow> (case entry b ''to'' of Some (JStr s) \<Rightarrow> read_placeholder s | _ \<Rightarrow> None)
      | None \<Rightarrow> None)"

definition request_type :: "json \<Rightarrow> json option" where
  "request_type op = (case entry op ''body'' of Some b \<Rightarrow> entry b ''type'' | None \<Rightarrow> None)"

definition request_data :: "json \<Rightarrow> props option" where
  "request_data op =
     (case entry op ''body'' of
        Some b \<Rightarrow> (case entry b ''data'' of Some (JObj d) \<Rightarrow> Some d | _ \<Rightarrow> None)
      | None \<Rightarrow> None)"

text \<open>The temp-id and the properties of a node request, the node and the label of a label request.\<close>

definition node_request_id :: "json \<Rightarrow> int option" where
  "node_request_id op = (case entry op ''id'' of Some (JInt i) \<Rightarrow> Some i | _ \<Rightarrow> None)"

definition node_request_properties :: "json \<Rightarrow> props option" where
  "node_request_properties op = (case entry op ''body'' of Some (JObj d) \<Rightarrow> Some d | _ \<Rightarrow> None)"

definition label_request_node :: "json \<Rightarrow> nat option" where
  "label_request_node op = read_path ''/labels'' (op_to op)"

definition label_request_label :: "json \<Rightarrow> string option" where
  "label_request_label op = (case entry op ''body'' of Some (JStr l) \<Rightarrow> Some l | _ \<Rightarrow> None)"

section \<open>The response validator\<close>

text \<open>Line 12.\<close>

definition JSON_CONTENT_TYPE :: string where
  "JSON_CONTENT_TYPE = ''application/json; charset=utf-8''"

text \<open>
  \<^verbatim>\<open>str.lower()\<close>, on the ASCII letters; every other character stays. (A header value
  holds Latin-1 characters, and lower-casing one of those never gives an ASCII
  character, so the comparison of line 131 reads the same.)
\<close>

definition lower_char :: "char \<Rightarrow> char" where
  "lower_char c =
     (case map_of (zip ''ABCDEFGHIJKLMNOPQRSTUVWXYZ'' ''abcdefghijklmnopqrstuvwxyz'') c of
        None \<Rightarrow> c
      | Some d \<Rightarrow> d)"

definition lower :: "string \<Rightarrow> string" where
  "lower s = map lower_char s"

text \<open>
  What \<^verbatim>\<open>check_exception\<close> reads from a \<^verbatim>\<open>requests.Response\<close>: the status code, the
  headers (a dictionary whose keys are the lower-cased header names: the library looks
  headers up without regard to case), the raw body \<^verbatim>\<open>content\<close>, and the outcome of the
  method \<^verbatim>\<open>json()\<close>, which is the decoded body or the exception the decoder raises.
\<close>

record response =
  status_code :: int
  headers :: "(string \<times> string) list"
  content :: string
  json :: "exn + json"

text \<open>\<^verbatim>\<open>d.get(k, dflt)\<close>.\<close>

definition dict_get :: "('k \<times> 'v) list \<Rightarrow> 'k \<Rightarrow> 'v \<Rightarrow> 'v" where
  "dict_get d k dflt = (case map_of d k of None \<Rightarrow> dflt | Some v \<Rightarrow> v)"

text \<open>
  \<^verbatim>\<open>v[k]\<close> for a string \<open>k\<close>: the entry of a dictionary, \<open>KeyError\<close> when the dictionary
  has no such key, \<open>TypeError\<close> when \<open>v\<close> is no dictionary.
\<close>

fun subscript :: "json \<Rightarrow> string \<Rightarrow> exn + json" where
  "subscript (JObj d) k = (case map_of d k of None \<Rightarrow> Inl (KeyError (Some k)) | Some v \<Rightarrow> Inr v)"
| "subscript _ k = Inl TypeError"

text \<open>
  Lines 119 to 137. Returning is \<open>Inr ()\<close>. The exception of line 135 gets the raw body
  as its second argument in line 136.
\<close>

definition check_exception :: "response \<Rightarrow> exn + unit" where
  "check_exception result =
     (if status_code result = 200 then Inr ()
      else if lower (dict_get (headers result) ''content-type'' '''') = JSON_CONTENT_TYPE then
        (case json result of
           Inl e \<Rightarrow> Inl e
         | Inr result_json \<Rightarrow>
             (case subscript result_json ''errors'' of
                Inl e \<Rightarrow> Inl e
              | Inr errors \<Rightarrow> Inl (Exception [errors])))
      else Inl (Exception [JStr ''Unknown server error.'', JStr (content result)]))"

section \<open>The graph reconstructor\<close>

subsection \<open>Reading an integer\<close>








subsection \<open>The records of the response and the graph\<close>










subsection \<open>The two loops\<close>




section \<open>Inputs of the examples\<close>

text \<open>
  The graph of the class \<^verbatim>\<open>TestEdgeLabels\<close>: undirected, with the edges
  \<^verbatim>\<open>(0, 1, label='KNOWS')\<close>, \<^verbatim>\<open>(1, 2, label='LIKES')\<close> and \<^verbatim>\<open>(2, 0, joe='BLOGGS')\<close>,
  listed node by node as \<^verbatim>\<open>graph.edges(data=True)\<close> does.
\<close>

definition edge_labels_graph :: "nat graph" where
  "edge_labels_graph =
     \<lparr>is_digraph = False,
      graph_nodes = [(0, []), (1, []), (2, [])],
      graph_edges = [(0, 1, [(''label'', JStr ''KNOWS'')]),
                     (0, 2, [(''joe'', JStr ''BLOGGS'')]),
                     (1, 2, [(''label'', JStr ''LIKES'')])]\<rparr>"

text \<open>
  The graph of the specification's round trip: undirected, nodes 1, 2 and 3, edges
  \<^verbatim>\<open>(1, 2)\<close> and \<^verbatim>\<open>(2, 3)\<close>.
\<close>

definition links_graph :: "nat graph" where
  "links_graph =
     \<lparr>is_digraph = False,
      graph_nodes = [(1, []), (2, []), (3, [])],
      graph_edges = [(1, 2, []), (2, 3, [])]\<rparr>"

text \<open>
  The graph of \<^verbatim>\<open>test_get_geoff_digraph\<close>: \<^verbatim>\<open>nx.balanced_tree(2, 1)\<close> as a \<^verbatim>\<open>DiGraph\<close>,
  with one node property and one edge property.
\<close>

definition tree_digraph :: "nat graph" where
  "tree_digraph =
     \<lparr>is_digraph = True,
      graph_nodes = [(0, []), (1, []), (2, [(''debug'', JStr ''test'')])],
      graph_edges = [(0, 1, [(''debug'', JBool False)]), (0, 2, [])]\<rparr>"

text \<open>An undirected graph with a self-loop on its second node.\<close>

definition loop_graph :: "string graph" where
  "loop_graph =
     \<lparr>is_digraph = False,
      graph_nodes = [(''a'', []), (''b'', [])],
      graph_edges = [(''a'', ''b'', []), (''b'', ''b'', [(''w'', JInt 1)])]\<rparr>"

text \<open>
  The response of \<^verbatim>\<open>test_failure_json\<close>: status 500, a JSON content type, and a body
  without the key \<^verbatim>\<open>errors\<close>.
\<close>

definition failure_json_response :: response where
  \<open>failure_json_response =
     \<lparr>status_code = 500,
      headers = [(''content-type'', ''application/json; charset=UTF-8'')],
      content = ''{"exception": "Error", "stacktrace": 1}'',
      json = Inr (JObj [(''exception'', JStr ''Error''), (''stacktrace'', JInt 1)])\<rparr>\<close>

text \<open>The same status and content type, with a body that reports errors.\<close>

definition json_error_response :: response where
  \<open>json_error_response =
     \<lparr>status_code = 500,
      headers = [(''content-type'', ''application/json; charset=UTF-8'')],
      content = ''{"errors": ["boom"]}'',
      json = Inr (JObj [(''errors'', JArr [JStr ''boom''])])\<rparr>\<close>

text \<open>The same body under the content type \<^verbatim>\<open>application/json\<close>, with no charset.\<close>

definition non_json_response :: response where
  \<open>non_json_response =
     \<lparr>status_code = 500,
      headers = [(''content-type'', ''application/json'')],
      content = ''{"errors": ["boom"]}'',
      json = Inr (JObj [(''errors'', JArr [JStr ''boom''])])\<rparr>\<close>

text \<open>The response of \<^verbatim>\<open>test_failure_500\<close>, whose body is no JSON.\<close>

definition html_error_response :: response where
  "html_error_response =
     \<lparr>status_code = 500,
      headers = [(''content-type'', ''text/html'')],
      content = ''Server Error'',
      json = Inl (ValueError ''No JSON object could be decoded'')\<rparr>"

text \<open>The accepted batch of the export tests.\<close>

definition ok_response :: response where
  \<open>ok_response =
     \<lparr>status_code = 200,
      headers = [(''content-type'', ''application/json; charset=UTF-8'')],
      content = ''["Dummy"]'',
      json = Inr (JArr [JStr ''Dummy''])\<rparr>\<close>





section \<open>Properties of the batch request builder\<close>

subsection \<open>Auxiliary facts\<close>

lemma op_to_simps [simp]:
  "op_to (get_node i p) = ''/node''"
  "op_to (get_label i l) = placeholder i @ ''/labels''"
  "op_to (get_relationship f t ty p) = placeholder f @ ''/relationships''"
  by (simp_all add: op_to_def get_node_def get_label_def get_relationship_def)

lemma classify [simp]:
  "is_create_node (get_node i p)"
  "\<not> is_create_node (get_label i l)"
  "\<not> is_create_node (get_relationship f t ty p)"
  "\<not> is_add_label (get_node i p)"
  "is_add_label (get_label i l)"
  "\<not> is_add_label (get_relationship f t ty p)"
  "\<not> is_create_relationship (get_node i p)"
  "\<not> is_create_relationship (get_label i l)"
  "is_create_relationship (get_relationship f t ty p)"
  by (simp_all add: is_create_node_def is_add_label_def is_create_relationship_def
        placeholder_def suffix_to_prefix)

lemma update_fresh: "k \<notin> fst ` set al \<Longrightarrow> AList.update k v al = al @ [(k, v)]"
  by (induction al) auto

lemma node_loop_distinct:
  "distinct (map fst ns) \<Longrightarrow>
   node_loop ns = (map (\<lambda>(i, n, p). get_node i p) (enumerate 0 ns), zip (map fst ns) [0..<length ns])"
proof (induction ns rule: rev_induct)
  case Nil
  then show ?case by (simp add: node_loop_def)
next
  case (snoc x xs)
  obtain n p where x: "x = (n, p)" by (cases x)
  from snoc.prems have d: "distinct (map fst xs)" and fresh: "n \<notin> fst ` set xs"
    by (simp_all add: x)
  have fresh': "n \<notin> fst ` set (zip (map fst xs) [0..<length xs])"
    using fresh by (auto dest: set_zip_leftD)
  show ?case
    using snoc.IH [OF d] fresh'
    by (simp add: node_loop_def enumerate_append_eq x update_fresh)
qed


lemma edge_loop_shape:
  "edge_loop dg nds nm key es acc = Inr ents \<Longrightarrow>
   \<exists>rs. ents = acc @ concat rs \<and>
     list_all2 (\<lambda>(u, v, p) r. \<exists>f t ty.
        map_of nds u = Some f \<and> map_of nds v = Some t \<and> resolve_ename nm key p = Inr ty \<and>
        r = get_relationship f t ty p # (if dg then [] else [get_relationship t f ty p])) es rs"
proof (induction es arbitrary: acc)
  case Nil
  then show ?case by simp
next
  case (Cons e es)
  obtain u v p where e: "e = (u, v, p)" by (cases e)
  from Cons.prems obtain ty f t where
    ty: "resolve_ename nm key p = Inr ty" and f: "map_of nds u = Some f" and
    t: "map_of nds v = Some t" and
    rest: "edge_loop dg nds nm key es
             (acc @ get_relationship f t ty p # (if dg then [] else [get_relationship t f ty p])) = Inr ents"
    by (auto simp: e node_ref_def Let_def split: sum.splits option.splits if_splits)
  from Cons.IH [OF rest] obtain rs where
    rs: "ents = (acc @ get_relationship f t ty p # (if dg then [] else [get_relationship t f ty p])) @ concat rs"
    and all: "list_all2 (\<lambda>(u, v, p) r. \<exists>f t ty.
        map_of nds u = Some f \<and> map_of nds v = Some t \<and> resolve_ename nm key p = Inr ty \<and>
        r = get_relationship f t ty p # (if dg then [] else [get_relationship t f ty p])) es rs"
    by blast
  let ?r = "get_relationship f t ty p # (if dg then [] else [get_relationship t f ty p])"
  have "ents = acc @ concat (?r # rs)" using rs by simp
  moreover have "list_all2 (\<lambda>(u, v, p) r. \<exists>f t ty.
        map_of nds u = Some f \<and> map_of nds v = Some t \<and> resolve_ename nm key p = Inr ty \<and>
        r = get_relationship f t ty p # (if dg then [] else [get_relationship t f ty p])) (e # es) (?r # rs)"
    using all ty f t by (simp add: e)
  ultimately show ?case by blast
qed

lemma edge_loop_total:
  "list_all (\<lambda>(u, v, p). map_of nds u \<noteq> None \<and> map_of nds v \<noteq> None \<and>
      (\<exists>ty. resolve_ename nm key p = Inr ty)) es \<Longrightarrow>
   \<exists>ents. edge_loop dg nds nm key es acc = Inr ents"
  by (induction es arbitrary: acc) (auto simp: node_ref_def Let_def)

lemma edge_loop_invalid_key:
  "list_all (\<lambda>(u, v, p). map_of nds u \<noteq> None \<and> map_of nds v \<noteq> None) es \<Longrightarrow>
   \<exists>(u, v, p) \<in> set es. map_of p k = None \<Longrightarrow>
   edge_loop dg nds None (Some k) es acc = Inl (ValueError ''Invalid edge label key'')"
proof (induction es arbitrary: acc)
  case Nil
  then show ?case by simp
next
  case (Cons e es)
  obtain u v p where e: "e = (u, v, p)" by (cases e)
  show ?case
  proof (cases "map_of p k")
    case None
    then show ?thesis by (simp add: e resolve_ename_def)
  next
    case (Some x)
    with Cons.prems have "\<exists>(u, v, p) \<in> set es. map_of p k = None" by (auto simp: e)
    with Cons.prems Cons.IH Some show ?thesis
      by (auto simp: e resolve_ename_def node_ref_def Let_def)
  qed
qed

lemma map_of_zip_upt:
  "map_of (zip xs [0..<length xs]) u = Some f \<Longrightarrow> f < length xs \<and> xs ! f = u"
  by (auto dest!: map_of_SomeD simp: in_set_zip)

lemma map_of_zip_upt_dom:
  "u \<in> set xs \<Longrightarrow> map_of (zip xs [0..<length xs]) u \<noteq> None"
  by (simp add: map_of_zip_is_None)


lemma entities_shape:
  assumes wf: "wf_graph g" and ok: "entities g name label key = Inr ents"
  shows "\<exists>rs. ents = map (\<lambda>(i, n, p). get_node i p) (enumerate 0 (graph_nodes g)) @
           (if truthy label then map (\<lambda>i. get_label i (the label)) [0..<length (graph_nodes g)] else []) @
           concat rs \<and>
         list_all2 (\<lambda>(u, v, p) r. \<exists>f t ty.
            f < length (graph_nodes g) \<and> fst (graph_nodes g ! f) = u \<and>
            t < length (graph_nodes g) \<and> fst (graph_nodes g ! t) = v \<and>
            resolve_ename name key p = Inr ty \<and>
            r = get_relationship f t ty p #
                (if is_digraph g then [] else [get_relationship t f ty p]))
           (graph_edges g) rs"
proof -
  let ?ns = "graph_nodes g"
  let ?nds = "zip (map fst ?ns) [0..<length ?ns]"
  let ?ents0 = "map (\<lambda>(i, n, p). get_node i p) (enumerate 0 ?ns)"
  from wf have d: "distinct (map fst ?ns)" by (simp add: wf_graph_def)
  have nl: "node_loop ?ns = (?ents0, ?nds)" by (rule node_loop_distinct [OF d])
  have vals: "map snd ?nds = [0..<length ?ns]" by simp
  from ok have el: "edge_loop (is_digraph g) ?nds name key (graph_edges g)
      (label_loop label ?nds ?ents0) = Inr ents"
    by (simp add: entities_def nl split: if_splits)
  from edge_loop_shape [OF el] obtain rs where
    e: "ents = label_loop label ?nds ?ents0 @ concat rs" and
    all: "list_all2 (\<lambda>(u, v, p) r. \<exists>f t ty.
        map_of ?nds u = Some f \<and> map_of ?nds v = Some t \<and> resolve_ename name key p = Inr ty \<and>
        r = get_relationship f t ty p # (if is_digraph g then [] else [get_relationship t f ty p]))
        (graph_edges g) rs"
    by blast
  have idx: "\<And>u f. map_of ?nds u = Some f \<Longrightarrow> f < length ?ns \<and> fst (?ns ! f) = u"
    using map_of_zip_upt [of "map fst ?ns"] by fastforce
  have all': "list_all2 (\<lambda>(u, v, p) r. \<exists>f t ty.
            f < length ?ns \<and> fst (?ns ! f) = u \<and> t < length ?ns \<and> fst (?ns ! t) = v \<and>
            resolve_ename name key p = Inr ty \<and>
            r = get_relationship f t ty p #
                (if is_digraph g then [] else [get_relationship t f ty p]))
           (graph_edges g) rs"
  proof (rule list_all2_mono [OF all])
    fix e r
    assume a: "(case e of (u, v, p) \<Rightarrow> \<lambda>r. \<exists>f t ty.
        map_of ?nds u = Some f \<and> map_of ?nds v = Some t \<and> resolve_ename name key p = Inr ty \<and>
        r = get_relationship f t ty p # (if is_digraph g then [] else [get_relationship t f ty p])) r"
    obtain u v p where e: "e = (u, v, p)" by (cases e)
    from a obtain f t ty where f: "map_of ?nds u = Some f" and t: "map_of ?nds v = Some t"
      and ty: "resolve_ename name key p = Inr ty"
      and r: "r = get_relationship f t ty p # (if is_digraph g then [] else [get_relationship t f ty p])"
      unfolding e by auto
    from idx [OF f] idx [OF t] ty r
    show "(case e of (u, v, p) \<Rightarrow> \<lambda>r. \<exists>f t ty.
            f < length ?ns \<and> fst (?ns ! f) = u \<and> t < length ?ns \<and> fst (?ns ! t) = v \<and>
            resolve_ename name key p = Inr ty \<and>
            r = get_relationship f t ty p #
                (if is_digraph g then [] else [get_relationship t f ty p])) r"
      unfolding e prod.case by blast
  qed
  have "ents = ?ents0 @
           (if truthy label then map (\<lambda>i. get_label i (the label)) [0..<length ?ns] else []) @
           concat rs"
    using e by (simp add: label_loop_def)
  with all' show ?thesis by blast
qed

lemma entities_total:
  assumes wf: "wf_graph g"
    and naming: "name \<noteq> None \<or>
      (\<exists>k. key = Some k \<and> (\<forall>(u, v, p) \<in> set (graph_edges g). map_of p k \<noteq> None))"
  shows "\<exists>ents. entities g name label key = Inr ents"
proof -
  let ?ns = "graph_nodes g"
  let ?nds = "zip (map fst ?ns) [0..<length ?ns]"
  from wf have d: "distinct (map fst ?ns)" by (simp add: wf_graph_def)
  have nl: "node_loop ?ns = (map (\<lambda>(i, n, p). get_node i p) (enumerate 0 ?ns), ?nds)"
    by (rule node_loop_distinct [OF d])
  have dom: "\<And>u. u \<in> fst ` set ?ns \<Longrightarrow> map_of ?nds u \<noteq> None"
    using map_of_zip_upt_dom [of _ "map fst ?ns"] by simp
  have res: "\<And>u v p. (u, v, p) \<in> set (graph_edges g) \<Longrightarrow> \<exists>ty. resolve_ename name key p = Inr ty"
    using naming by (auto simp: resolve_ename_def split: option.splits)
  have "list_all (\<lambda>(u, v, p). map_of ?nds u \<noteq> None \<and> map_of ?nds v \<noteq> None \<and>
      (\<exists>ty. resolve_ename name key p = Inr ty)) (graph_edges g)"
    unfolding list_all_iff
  proof (intro ballI)
    fix e assume e: "e \<in> set (graph_edges g)"
    obtain u v p where eq: "e = (u, v, p)" by (cases e)
    from wf e eq have "u \<in> fst ` set ?ns" "v \<in> fst ` set ?ns"
      by (auto simp: wf_graph_def list_all_iff)
    with dom res e eq show "case e of (u, v, p) \<Rightarrow> map_of ?nds u \<noteq> None \<and> map_of ?nds v \<noteq> None \<and>
      (\<exists>ty. resolve_ename name key p = Inr ty)"
      by auto
  qed
  from edge_loop_total [OF this] naming show ?thesis
    by (auto simp: entities_def nl)
qed

lemma concat_uniform_length:
  "list_all2 (\<lambda>e r. length r = k) es rs \<Longrightarrow> length (concat rs) = k * length es"
  by (induction rule: list_all2_induct) simp_all


lemma filter_node_ops [simp]:
  "filter is_create_node (map (\<lambda>(i, n, p). get_node i p) xs) = map (\<lambda>(i, n, p). get_node i p) xs"
  "filter is_add_label (map (\<lambda>(i, n, p). get_node i p) xs) = []"
  "filter is_create_relationship (map (\<lambda>(i, n, p). get_node i p) xs) = []"
  by (induction xs) auto

lemma filter_label_ops [simp]:
  "filter is_create_node (map (\<lambda>i. get_label i l) js) = []"
  "filter is_add_label (map (\<lambda>i. get_label i l) js) = map (\<lambda>i. get_label i l) js"
  "filter is_create_relationship (map (\<lambda>i. get_label i l) js) = []"
  by (induction js) auto

lemma concat_all:
  assumes "list_all2 R es rs" and "\<And>e r. R e r \<Longrightarrow> \<forall>op \<in> set r. P op"
  shows "\<forall>op \<in> set (concat rs). P op"
  using assms by (induction rule: list_all2_induct) auto

lemma filter_all: "\<forall>x \<in> set xs. P x \<Longrightarrow> filter P xs = xs"
  by (induction xs) auto

lemma filter_none: "\<forall>x \<in> set xs. \<not> P x \<Longrightarrow> filter P xs = []"
  by (induction xs) auto

lemma entities_decompose:
  assumes wf: "wf_graph g"
    and naming: "name \<noteq> None \<or>
      (\<exists>k. key = Some k \<and> (\<forall>(u, v, p) \<in> set (graph_edges g). map_of p k \<noteq> None))"
  shows "\<exists>rs. entities g name label key =
           Inr (map (\<lambda>(i, n, p). get_node i p) (enumerate 0 (graph_nodes g)) @
                (if truthy label then map (\<lambda>i. get_label i (the label)) [0..<length (graph_nodes g)] else []) @
                concat rs) \<and>
         list_all2 (\<lambda>(u, v, p) r. \<exists>f t ty.
            f < length (graph_nodes g) \<and> fst (graph_nodes g ! f) = u \<and>
            t < length (graph_nodes g) \<and> fst (graph_nodes g ! t) = v \<and>
            resolve_ename name key p = Inr ty \<and>
            r = get_relationship f t ty p #
                (if is_digraph g then [] else [get_relationship t f ty p]))
           (graph_edges g) rs"
proof -
  from entities_total [OF wf naming] obtain ents where
    ok: "entities g name label key = Inr ents" by blast
  from entities_shape [OF wf ok] ok show ?thesis by auto
qed

lemma rel_ops_classified:
  assumes "list_all2 (\<lambda>(u, v, p) r. \<exists>f t ty. Q u v p f t ty \<and>
            r = get_relationship f t ty p # (if dg then [] else [get_relationship t f ty p])) es rs"
  shows "\<forall>op \<in> set (concat rs). is_create_relationship op \<and> \<not> is_create_node op \<and> \<not> is_add_label op"
  by (rule concat_all [OF assms]) (auto split: if_splits)

lemma rel_ops_length:
  assumes "list_all2 (\<lambda>(u, v, p) r. \<exists>f t ty. Q u v p f t ty \<and>
            r = get_relationship f t ty p # (if dg then [] else [get_relationship t f ty p])) es rs"
  shows "length (concat rs) = (if dg then 1 else 2) * length es"
proof (rule concat_uniform_length)
  show "list_all2 (\<lambda>e r. length r = (if dg then 1 else 2)) es rs"
    by (rule list_all2_mono [OF assms]) auto
qed

lemma list_all2_split:
  "list_all2 R (xs @ y # ys) zs \<Longrightarrow>
   \<exists>zs1 z zs2. zs = zs1 @ z # zs2 \<and> R y z \<and> list_all2 R ys zs2"
  by (auto simp: list_all2_append1 list_all2_Cons1)

lemma generate_data_encodes:
  "entities g name label key = Inr ents \<Longrightarrow>
   generate_data g name label (Some enc) key = Inr (enc ents)"
  by (simp add: generate_data_def)

lemma digit_char_value:
  "d < 10 \<Longrightarrow> is_digit (digit_char d) \<and> of_char (digit_char d) - 48 = d"
proof -
  assume "d < 10"
  then have "d \<in> {0, 1, 2, 3, 4, 5, 6, 7, 8, 9}" by auto
  then show ?thesis
    by (auto simp: digit_char_def is_digit_def)
qed

lemma read_nat_str_nat: "read_nat (str_nat n) = Some n"
proof (induction n rule: str_nat.induct)
  case (1 n)
  show ?case
  proof (cases "n < 10")
    case True
    then show ?thesis
      using digit_char_value [of n] by (simp add: str_nat.simps [of n] read_nat_def)
  next
    case False
    from "1" [OF False] have ih: "read_nat (str_nat (n div 10)) = Some (n div 10)" .
    have d: "is_digit (digit_char (n mod 10)) \<and> of_char (digit_char (n mod 10)) - 48 = n mod 10"
      by (rule digit_char_value) simp
    from ih have a: "list_all is_digit (str_nat (n div 10))"
      and b: "foldl (\<lambda>a c. 10 * a + (of_char c - 48)) 0 (str_nat (n div 10)) = n div 10"
      by (auto simp: read_nat_def split: if_splits)
    from False a b d show ?thesis
      by (simp add: str_nat.simps [of n] read_nat_def)
  qed
qed

lemma read_placeholder_placeholder [simp]: "read_placeholder (placeholder i) = Some i"
  by (simp add: read_placeholder_def placeholder_def read_nat_str_nat butlast_append)

lemma read_path_placeholder [simp]: "read_path tail (placeholder i @ tail) = Some i"
  by (simp add: read_path_def suffix_def)

lemma read_relationship [simp]:
  "request_source (get_relationship f t ty p) = Some f"
  "request_target (get_relationship f t ty p) = Some t"
  "request_type (get_relationship f t ty p) = Some ty"
  "request_data (get_relationship f t ty p) = Some p"
  by (simp_all add: request_source_def request_target_def request_type_def request_data_def
        entry_def get_relationship_def)
     (simp add: op_to_def)

lemma read_node [simp]:
  "node_request_id (get_node i p) = Some (int i)"
  "node_request_properties (get_node i p) = Some p"
  by (simp_all add: node_request_id_def node_request_properties_def entry_def get_node_def)

lemma read_label [simp]:
  "label_request_node (get_label i l) = Some i"
  "label_request_label (get_label i l) = Some l"
  by (simp_all add: label_request_node_def label_request_label_def entry_def)
     (simp add: get_label_def)

lemma edge_requests_read:
  assumes "list_all2 (\<lambda>(u, v, p) r. \<exists>f t ty.
            (f < length ns \<and> fst (ns ! f) = u \<and> t < length ns \<and> fst (ns ! t) = v \<and>
             resolve_ename name key p = Inr ty) \<and>
            r = get_relationship f t ty p # (if dg then [] else [get_relationship t f ty p]))
           es rs"
  shows "list_all2 (\<lambda>(u, v, p) r. \<exists>f t ty fwd mir.
            f < length ns \<and> fst (ns ! f) = u \<and> t < length ns \<and> fst (ns ! t) = v \<and>
            resolve_ename name key p = Inr ty \<and>
            r = fwd # (if dg then [] else [mir]) \<and>
            fwd = get_relationship f t ty p \<and> mir = get_relationship t f ty p \<and>
            request_source fwd = Some f \<and> request_target fwd = Some t \<and>
            request_type fwd = Some ty \<and> request_data fwd = Some p \<and>
            request_source mir = Some t \<and> request_target mir = Some f \<and>
            request_type mir = Some ty \<and> request_data mir = Some p)
           es rs"
proof (rule list_all2_mono [OF assms])
  fix e r
  assume h: "(case e of (u, v, p) \<Rightarrow> \<lambda>r. \<exists>f t ty.
            (f < length ns \<and> fst (ns ! f) = u \<and> t < length ns \<and> fst (ns ! t) = v \<and>
             resolve_ename name key p = Inr ty) \<and>
            r = get_relationship f t ty p # (if dg then [] else [get_relationship t f ty p])) r"
  obtain u v p where e: "e = (u, v, p)" by (cases e)
  from h obtain f t ty where
    f: "f < length ns \<and> fst (ns ! f) = u" and
    t: "t < length ns \<and> fst (ns ! t) = v" and
    ty: "resolve_ename name key p = Inr ty" and
    r: "r = get_relationship f t ty p # (if dg then [] else [get_relationship t f ty p])"
    unfolding e by auto
  let ?fwd = "get_relationship f t ty p"
  let ?mir = "get_relationship t f ty p"
  have rd: "request_source ?fwd = Some f \<and> request_target ?fwd = Some t \<and>
            request_type ?fwd = Some ty \<and> request_data ?fwd = Some p \<and>
            request_source ?mir = Some t \<and> request_target ?mir = Some f \<and>
            request_type ?mir = Some ty \<and> request_data ?mir = Some p"
    by simp
  from f t ty r rd
  show "(case e of (u, v, p) \<Rightarrow> \<lambda>r. \<exists>f t ty fwd mir.
            f < length ns \<and> fst (ns ! f) = u \<and> t < length ns \<and> fst (ns ! t) = v \<and>
            resolve_ename name key p = Inr ty \<and>
            r = fwd # (if dg then [] else [mir]) \<and>
            fwd = get_relationship f t ty p \<and> mir = get_relationship t f ty p \<and>
            request_source fwd = Some f \<and> request_target fwd = Some t \<and>
            request_type fwd = Some ty \<and> request_data fwd = Some p \<and>
            request_source mir = Some t \<and> request_target mir = Some f \<and>
            request_type mir = Some ty \<and> request_data mir = Some p) r"
    unfolding e prod.case by blast
qed

lemma node_requests_read:
  "map node_request_id (map (\<lambda>(i, n, p). get_node i p) (enumerate k ns)) =
     map (\<lambda>i. Some (int i)) [k..<k + length ns]"
  "map node_request_properties (map (\<lambda>(i, n, p). get_node i p) (enumerate k ns)) =
     map (\<lambda>(n, p). Some p) ns"
  by (induction ns arbitrary: k) (auto simp: upt_rec)

lemma label_requests_read:
  "map label_request_node (map (\<lambda>i. get_label i l) js) = map Some js"
  "map label_request_label (map (\<lambda>i. get_label i l) js) = map (\<lambda>i. Some l) js"
  by simp_all

subsection \<open>The naming precondition\<close>

text \<open>
  C4. With neither \<^verbatim>\<open>edge_rel_name\<close> nor \<^verbatim>\<open>edge_rel_key\<close>, \<^verbatim>\<open>generate_data\<close> raises the
  \<open>ValueError\<close> of line 78 for every graph (the empty one too), every label and every
  encoder: the check is the first statement, so no request has been built.
\<close>

theorem generate_data_requires_naming:
  "generate_data g None label encoder None =
     Inl (ValueError ''Must provide either `edge_rel_name` or `edge_rel_key`'') \<and>
   entities g None label None =
     Inl (ValueError ''Must provide either `edge_rel_name` or `edge_rel_key`'')"
  by (simp add: generate_data_def entities_def)

subsection \<open>The relationship type of an edge\<close>

text \<open>
  C1. With \<^verbatim>\<open>edge_rel_key = k\<close> on a graph as NetworkX hands it over: if
  \<^verbatim>\<open>edge_rel_name\<close> is missing and some edge has no property \<open>k\<close>, the call raises
  \<open>ValueError\<close> (Invalid edge label key), whatever the encoder; otherwise the list that
  is encoded ends, edge by edge, in the relationship requests of each edge, and the
  \<^verbatim>\<open>type\<close> entry read from each of them is the value of the property \<open>k\<close> when the edge
  has it and \<^verbatim>\<open>edge_rel_name\<close> when it has not. The ends and the \<^verbatim>\<open>data\<close> entry read from
  the requests are those of the edge.
\<close>

theorem relationship_type_resolution:
  assumes wf: "wf_graph g"
  shows "(name = None \<and> (\<exists>(u, v, p) \<in> set (graph_edges g). map_of p k = None) \<longrightarrow>
            generate_data g name label encoder (Some k) =
              Inl (ValueError ''Invalid edge label key'')) \<and>
         (name \<noteq> None \<or> (\<forall>(u, v, p) \<in> set (graph_edges g). map_of p k \<noteq> None) \<longrightarrow>
            (\<exists>pre rs. entities g name label (Some k) = Inr (pre @ concat rs) \<and>
               generate_data g name label (Some enc) (Some k) = Inr (enc (pre @ concat rs)) \<and>
               (\<forall>op \<in> set pre. \<not> is_create_relationship op) \<and>
               list_all2 (\<lambda>(u, v, p) r. \<exists>f t ty fwd mir.
                    f < length (graph_nodes g) \<and> fst (graph_nodes g ! f) = u \<and>
                    t < length (graph_nodes g) \<and> fst (graph_nodes g ! t) = v \<and>
                    (case map_of p k of
                       Some x \<Rightarrow> ty = x
                     | None \<Rightarrow> (\<exists>n. name = Some n \<and> ty = JStr n)) \<and>
                    r = fwd # (if is_digraph g then [] else [mir]) \<and>
                    fwd = get_relationship f t ty p \<and> mir = get_relationship t f ty p \<and>
                    request_type fwd = Some ty \<and> request_type mir = Some ty \<and>
                    request_source fwd = Some f \<and> request_target fwd = Some t \<and>
                    request_data fwd = Some p \<and>
                    request_source mir = Some t \<and> request_target mir = Some f \<and>
                    request_data mir = Some p)
                 (graph_edges g) rs))"
proof (intro conjI impI)
  assume a: "name = None \<and> (\<exists>(u, v, p) \<in> set (graph_edges g). map_of p k = None)"
  let ?ns = "graph_nodes g"
  let ?nds = "zip (map fst ?ns) [0..<length ?ns]"
  from wf have d: "distinct (map fst ?ns)" by (simp add: wf_graph_def)
  have nl: "node_loop ?ns = (map (\<lambda>(i, n, p). get_node i p) (enumerate 0 ?ns), ?nds)"
    by (rule node_loop_distinct [OF d])
  have ends: "list_all (\<lambda>(u, v, p). map_of ?nds u \<noteq> None \<and> map_of ?nds v \<noteq> None) (graph_edges g)"
    using wf map_of_zip_upt_dom [of _ "map fst ?ns"]
    by (auto simp: wf_graph_def list_all_iff)
  from a have lack: "\<exists>(u, v, p) \<in> set (graph_edges g). map_of p k = None" by simp
  have "entities g None label (Some k) = Inl (ValueError ''Invalid edge label key'')"
    by (simp add: entities_def nl edge_loop_invalid_key [OF ends lack])
  with a show "generate_data g name label encoder (Some k) =
      Inl (ValueError ''Invalid edge label key'')"
    by (simp add: generate_data_def)
next
  assume a: "name \<noteq> None \<or> (\<forall>(u, v, p) \<in> set (graph_edges g). map_of p k \<noteq> None)"
  then have naming: "name \<noteq> None \<or>
      (\<exists>k'. Some k = Some k' \<and> (\<forall>(u, v, p) \<in> set (graph_edges g). map_of p k' \<noteq> None))"
    by simp
  let ?pre = "map (\<lambda>(i, n, p). get_node i p) (enumerate 0 (graph_nodes g)) @
      (if truthy label then map (\<lambda>i. get_label i (the label)) [0..<length (graph_nodes g)] else [])"
  from entities_decompose [OF wf naming, of label] obtain rs where
    e: "entities g name label (Some k) = Inr (?pre @ concat rs)" and
    all: "list_all2 (\<lambda>(u, v, p) r. \<exists>f t ty.
            (f < length (graph_nodes g) \<and> fst (graph_nodes g ! f) = u \<and>
            t < length (graph_nodes g) \<and> fst (graph_nodes g ! t) = v \<and>
            resolve_ename name (Some k) p = Inr ty) \<and>
            r = get_relationship f t ty p #
                (if is_digraph g then [] else [get_relationship t f ty p]))
           (graph_edges g) rs"
    by auto
  note gd = generate_data_encodes [OF e, of enc]
  have pre: "\<forall>op \<in> set ?pre. \<not> is_create_relationship op" by auto
  have all': "list_all2 (\<lambda>(u, v, p) r. \<exists>f t ty fwd mir.
                    f < length (graph_nodes g) \<and> fst (graph_nodes g ! f) = u \<and>
                    t < length (graph_nodes g) \<and> fst (graph_nodes g ! t) = v \<and>
                    (case map_of p k of
                       Some x \<Rightarrow> ty = x
                     | None \<Rightarrow> (\<exists>n. name = Some n \<and> ty = JStr n)) \<and>
                    r = fwd # (if is_digraph g then [] else [mir]) \<and>
                    fwd = get_relationship f t ty p \<and> mir = get_relationship t f ty p \<and>
                    request_type fwd = Some ty \<and> request_type mir = Some ty \<and>
                    request_source fwd = Some f \<and> request_target fwd = Some t \<and>
                    request_data fwd = Some p \<and>
                    request_source mir = Some t \<and> request_target mir = Some f \<and>
                    request_data mir = Some p)
                 (graph_edges g) rs"
  proof (rule list_all2_mono [OF edge_requests_read [OF all]])
    fix e r
    assume h: "(case e of (u, v, p) \<Rightarrow> \<lambda>r. \<exists>f t ty fwd mir.
            f < length (graph_nodes g) \<and> fst (graph_nodes g ! f) = u \<and>
            t < length (graph_nodes g) \<and> fst (graph_nodes g ! t) = v \<and>
            resolve_ename name (Some k) p = Inr ty \<and>
            r = fwd # (if is_digraph g then [] else [mir]) \<and>
            fwd = get_relationship f t ty p \<and> mir = get_relationship t f ty p \<and>
            request_source fwd = Some f \<and> request_target fwd = Some t \<and>
            request_type fwd = Some ty \<and> request_data fwd = Some p \<and>
            request_source mir = Some t \<and> request_target mir = Some f \<and>
            request_type mir = Some ty \<and> request_data mir = Some p) r"
    obtain u v p where e: "e = (u, v, p)" by (cases e)
    from h obtain f t ty fwd mir where
      f: "f < length (graph_nodes g) \<and> fst (graph_nodes g ! f) = u" and
      t: "t < length (graph_nodes g) \<and> fst (graph_nodes g ! t) = v" and
      ty: "resolve_ename name (Some k) p = Inr ty" and
      r: "r = fwd # (if is_digraph g then [] else [mir])" and
      fm: "fwd = get_relationship f t ty p \<and> mir = get_relationship t f ty p" and
      rd: "request_source fwd = Some f \<and> request_target fwd = Some t \<and>
            request_type fwd = Some ty \<and> request_data fwd = Some p \<and>
            request_source mir = Some t \<and> request_target mir = Some f \<and>
            request_type mir = Some ty \<and> request_data mir = Some p"
      unfolding e prod.case by blast
    from ty have ty': "(case map_of p k of
                       Some x \<Rightarrow> ty = x
                     | None \<Rightarrow> (\<exists>n. name = Some n \<and> ty = JStr n))"
      by (auto simp: resolve_ename_def split: option.splits)
    from f t ty' r fm rd
    show "(case e of (u, v, p) \<Rightarrow> \<lambda>r. \<exists>f t ty fwd mir.
                    f < length (graph_nodes g) \<and> fst (graph_nodes g ! f) = u \<and>
                    t < length (graph_nodes g) \<and> fst (graph_nodes g ! t) = v \<and>
                    (case map_of p k of
                       Some x \<Rightarrow> ty = x
                     | None \<Rightarrow> (\<exists>n. name = Some n \<and> ty = JStr n)) \<and>
                    r = fwd # (if is_digraph g then [] else [mir]) \<and>
                    fwd = get_relationship f t ty p \<and> mir = get_relationship t f ty p \<and>
                    request_type fwd = Some ty \<and> request_type mir = Some ty \<and>
                    request_source fwd = Some f \<and> request_target fwd = Some t \<and>
                    request_data fwd = Some p \<and>
                    request_source mir = Some t \<and> request_target mir = Some f \<and>
                    request_data mir = Some p) r"
      unfolding e prod.case by blast
  qed
  from e gd pre all' show "\<exists>pre rs. entities g name label (Some k) = Inr (pre @ concat rs) \<and>
               generate_data g name label (Some enc) (Some k) = Inr (enc (pre @ concat rs)) \<and>
               (\<forall>op \<in> set pre. \<not> is_create_relationship op) \<and>
               list_all2 (\<lambda>(u, v, p) r. \<exists>f t ty fwd mir.
                    f < length (graph_nodes g) \<and> fst (graph_nodes g ! f) = u \<and>
                    t < length (graph_nodes g) \<and> fst (graph_nodes g ! t) = v \<and>
                    (case map_of p k of
                       Some x \<Rightarrow> ty = x
                     | None \<Rightarrow> (\<exists>n. name = Some n \<and> ty = JStr n)) \<and>
                    r = fwd # (if is_digraph g then [] else [mir]) \<and>
                    fwd = get_relationship f t ty p \<and> mir = get_relationship t f ty p \<and>
                    request_type fwd = Some ty \<and> request_type mir = Some ty \<and>
                    request_source fwd = Some f \<and> request_target fwd = Some t \<and>
                    request_data fwd = Some p \<and>
                    request_source mir = Some t \<and> request_target mir = Some f \<and>
                    request_data mir = Some p)
                 (graph_edges g) rs"
    by blast
qed

theorem relationship_type_resolution_witness:
  "wf_graph edge_labels_graph \<and>
   generate_data edge_labels_graph None None (Some id) (Some ''label'') =
     Inl (ValueError ''Invalid edge label key'') \<and>
   (\<exists>pre rs. entities edge_labels_graph (Some ''LINKED_TO'') None (Some ''label'') =
        Inr (pre @ concat rs) \<and>
      generate_data edge_labels_graph (Some ''LINKED_TO'') None (Some id) (Some ''label'') =
        Inr (pre @ concat rs) \<and>
      (\<forall>op \<in> set pre. \<not> is_create_relationship op) \<and>
      list_all2 (\<lambda>(u, v, p) r. \<exists>f t ty fwd mir.
           f < length (graph_nodes edge_labels_graph) \<and>
           fst (graph_nodes edge_labels_graph ! f) = u \<and>
           t < length (graph_nodes edge_labels_graph) \<and>
           fst (graph_nodes edge_labels_graph ! t) = v \<and>
           (case map_of p ''label'' of
              Some x \<Rightarrow> ty = x
            | None \<Rightarrow> (\<exists>n. Some ''LINKED_TO'' = Some n \<and> ty = JStr n)) \<and>
           r = [fwd, mir] \<and>
           fwd = get_relationship f t ty p \<and> mir = get_relationship t f ty p \<and>
           request_type fwd = Some ty \<and> request_type mir = Some ty \<and>
           request_source fwd = Some f \<and> request_target fwd = Some t \<and>
           request_data fwd = Some p \<and>
           request_source mir = Some t \<and> request_target mir = Some f \<and>
           request_data mir = Some p)
        (graph_edges edge_labels_graph) rs) \<and>
   map request_type
     [get_relationship 0 1 (JStr ''KNOWS'') [(''label'', JStr ''KNOWS'')],
      get_relationship 0 2 (JStr ''LINKED_TO'') [(''joe'', JStr ''BLOGGS'')]] =
     [Some (JStr ''KNOWS''), Some (JStr ''LINKED_TO'')]"
proof -
  have wf: "wf_graph edge_labels_graph"
    by (simp add: wf_graph_def edge_labels_graph_def)
  have lack: "\<exists>(u, v, p) \<in> set (graph_edges edge_labels_graph). map_of p ''label'' = None"
    by (simp add: edge_labels_graph_def)
  have u: "\<not> is_digraph edge_labels_graph" by (simp add: edge_labels_graph_def)
  have c: "map request_type
     [get_relationship 0 1 (JStr ''KNOWS'') [(''label'', JStr ''KNOWS'')],
      get_relationship 0 2 (JStr ''LINKED_TO'') [(''joe'', JStr ''BLOGGS'')]] =
     [Some (JStr ''KNOWS''), Some (JStr ''LINKED_TO'')]"
    by code_simp
  from relationship_type_resolution [OF wf, where name = None and k = "''label''" and label = None
      and encoder = "Some id" and enc = id] lack
  have a: "generate_data edge_labels_graph None None (Some id) (Some ''label'') =
     Inl (ValueError ''Invalid edge label key'')"
    by simp
  from relationship_type_resolution [OF wf, where name = "Some ''LINKED_TO''" and k = "''label''"
      and label = None and enc = id]
  show ?thesis using wf a u c by simp
qed

subsection \<open>Relationship requests per edge\<close>

text \<open>
  C2. When every edge gets a relationship name (and the graph is as NetworkX hands it
  over), the call returns, and the encoded list ends, edge by edge and in the order of
  the edges, in: for a directed graph the one relationship request of the edge, for an
  undirected graph the forward request immediately followed by the mirrored one. Read
  from the requests themselves, the forward request goes from the temp-id of the source
  to the temp-id of the target, the mirrored one from the target to the source, and both
  have the resolved relationship name as their type and the properties of the edge as
  their data. Nothing before them is a relationship request, so their number is \<open>|E|\<close>
  for a directed and \<open>2 |E|\<close> for an undirected graph.
\<close>

theorem relationships_per_edge:
  assumes wf: "wf_graph g"
    and naming: "name \<noteq> None \<or>
      (\<exists>k. key = Some k \<and> (\<forall>(u, v, p) \<in> set (graph_edges g). map_of p k \<noteq> None))"
  shows "\<exists>pre rs. entities g name label key = Inr (pre @ concat rs) \<and>
           generate_data g name label (Some enc) key = Inr (enc (pre @ concat rs)) \<and>
           (\<forall>op \<in> set pre. \<not> is_create_relationship op) \<and>
           list_all2 (\<lambda>(u, v, p) r. \<exists>f t ty fwd mir.
                f < length (graph_nodes g) \<and> fst (graph_nodes g ! f) = u \<and>
                t < length (graph_nodes g) \<and> fst (graph_nodes g ! t) = v \<and>
                resolve_ename name key p = Inr ty \<and>
                r = (if is_digraph g then [fwd] else [fwd, mir]) \<and>
                fwd = get_relationship f t ty p \<and> mir = get_relationship t f ty p \<and>
                is_create_relationship fwd \<and> is_create_relationship mir \<and>
                request_source fwd = Some f \<and> request_target fwd = Some t \<and>
                request_type fwd = Some ty \<and> request_data fwd = Some p \<and>
                request_source mir = Some t \<and> request_target mir = Some f \<and>
                request_type mir = Some ty \<and> request_data mir = Some p)
             (graph_edges g) rs \<and>
           length (filter is_create_relationship (pre @ concat rs)) =
             (if is_digraph g then length (graph_edges g) else 2 * length (graph_edges g))"
proof -
  let ?pre = "map (\<lambda>(i, n, p). get_node i p) (enumerate 0 (graph_nodes g)) @
      (if truthy label then map (\<lambda>i. get_label i (the label)) [0..<length (graph_nodes g)] else [])"
  from entities_decompose [OF wf naming, of label] obtain rs where
    e: "entities g name label key = Inr (?pre @ concat rs)" and
    all: "list_all2 (\<lambda>(u, v, p) r. \<exists>f t ty.
            (f < length (graph_nodes g) \<and> fst (graph_nodes g ! f) = u \<and>
            t < length (graph_nodes g) \<and> fst (graph_nodes g ! t) = v \<and>
            resolve_ename name key p = Inr ty) \<and>
            r = get_relationship f t ty p #
                (if is_digraph g then [] else [get_relationship t f ty p]))
           (graph_edges g) rs"
    by auto
  note gd = generate_data_encodes [OF e, of enc]
  have pre: "\<forall>op \<in> set ?pre. \<not> is_create_relationship op" by auto
  have rels: "\<forall>op \<in> set (concat rs). is_create_relationship op"
    using rel_ops_classified [OF all] by blast
  have len: "length (concat rs) = (if is_digraph g then 1 else 2) * length (graph_edges g)"
    by (rule rel_ops_length [OF all])
  have "filter is_create_relationship (?pre @ concat rs) = concat rs"
    using filter_none [OF pre] filter_all [OF rels] by simp
  with len have count: "length (filter is_create_relationship (?pre @ concat rs)) =
             (if is_digraph g then length (graph_edges g) else 2 * length (graph_edges g))"
    by simp
  have all': "list_all2 (\<lambda>(u, v, p) r. \<exists>f t ty fwd mir.
                f < length (graph_nodes g) \<and> fst (graph_nodes g ! f) = u \<and>
                t < length (graph_nodes g) \<and> fst (graph_nodes g ! t) = v \<and>
                resolve_ename name key p = Inr ty \<and>
                r = (if is_digraph g then [fwd] else [fwd, mir]) \<and>
                fwd = get_relationship f t ty p \<and> mir = get_relationship t f ty p \<and>
                is_create_relationship fwd \<and> is_create_relationship mir \<and>
                request_source fwd = Some f \<and> request_target fwd = Some t \<and>
                request_type fwd = Some ty \<and> request_data fwd = Some p \<and>
                request_source mir = Some t \<and> request_target mir = Some f \<and>
                request_type mir = Some ty \<and> request_data mir = Some p)
             (graph_edges g) rs"
  proof (rule list_all2_mono [OF edge_requests_read [OF all]])
    fix e r
    assume h: "(case e of (u, v, p) \<Rightarrow> \<lambda>r. \<exists>f t ty fwd mir.
            f < length (graph_nodes g) \<and> fst (graph_nodes g ! f) = u \<and>
            t < length (graph_nodes g) \<and> fst (graph_nodes g ! t) = v \<and>
            resolve_ename name key p = Inr ty \<and>
            r = fwd # (if is_digraph g then [] else [mir]) \<and>
            fwd = get_relationship f t ty p \<and> mir = get_relationship t f ty p \<and>
            request_source fwd = Some f \<and> request_target fwd = Some t \<and>
            request_type fwd = Some ty \<and> request_data fwd = Some p \<and>
            request_source mir = Some t \<and> request_target mir = Some f \<and>
            request_type mir = Some ty \<and> request_data mir = Some p) r"
    obtain u v p where e: "e = (u, v, p)" by (cases e)
    from h obtain f t ty fwd mir where
      f: "f < length (graph_nodes g) \<and> fst (graph_nodes g ! f) = u" and
      t: "t < length (graph_nodes g) \<and> fst (graph_nodes g ! t) = v" and
      ty: "resolve_ename name key p = Inr ty" and
      r: "r = fwd # (if is_digraph g then [] else [mir])" and
      fm: "fwd = get_relationship f t ty p \<and> mir = get_relationship t f ty p" and
      rd: "request_source fwd = Some f \<and> request_target fwd = Some t \<and>
            request_type fwd = Some ty \<and> request_data fwd = Some p \<and>
            request_source mir = Some t \<and> request_target mir = Some f \<and>
            request_type mir = Some ty \<and> request_data mir = Some p"
      unfolding e prod.case by blast
    from r have r': "r = (if is_digraph g then [fwd] else [fwd, mir])" by simp
    from fm have cl: "is_create_relationship fwd \<and> is_create_relationship mir" by simp
    from f t ty r' fm cl rd
    show "(case e of (u, v, p) \<Rightarrow> \<lambda>r. \<exists>f t ty fwd mir.
                f < length (graph_nodes g) \<and> fst (graph_nodes g ! f) = u \<and>
                t < length (graph_nodes g) \<and> fst (graph_nodes g ! t) = v \<and>
                resolve_ename name key p = Inr ty \<and>
                r = (if is_digraph g then [fwd] else [fwd, mir]) \<and>
                fwd = get_relationship f t ty p \<and> mir = get_relationship t f ty p \<and>
                is_create_relationship fwd \<and> is_create_relationship mir \<and>
                request_source fwd = Some f \<and> request_target fwd = Some t \<and>
                request_type fwd = Some ty \<and> request_data fwd = Some p \<and>
                request_source mir = Some t \<and> request_target mir = Some f \<and>
                request_type mir = Some ty \<and> request_data mir = Some p) r"
      unfolding e prod.case by blast
  qed
  from e gd pre all' count show ?thesis by blast
qed

theorem relationships_per_edge_witness:
  "wf_graph tree_digraph \<and> wf_graph links_graph \<and>
   (\<exists>pre rs. entities tree_digraph (Some ''LINK_TO'') (Some ''ITEM'') None = Inr (pre @ concat rs) \<and>
      generate_data tree_digraph (Some ''LINK_TO'') (Some ''ITEM'') (Some id) None =
        Inr (pre @ concat rs) \<and>
      (\<forall>op \<in> set pre. \<not> is_create_relationship op) \<and>
      list_all2 (\<lambda>(u, v, p) r. \<exists>f t fwd.
           f < length (graph_nodes tree_digraph) \<and> fst (graph_nodes tree_digraph ! f) = u \<and>
           t < length (graph_nodes tree_digraph) \<and> fst (graph_nodes tree_digraph ! t) = v \<and>
           r = [fwd] \<and> fwd = get_relationship f t (JStr ''LINK_TO'') p \<and>
           is_create_relationship fwd \<and>
           request_source fwd = Some f \<and> request_target fwd = Some t \<and>
           request_type fwd = Some (JStr ''LINK_TO'') \<and> request_data fwd = Some p)
        (graph_edges tree_digraph) rs \<and>
      length (filter is_create_relationship (pre @ concat rs)) = 2) \<and>
   (\<exists>pre rs. entities links_graph (Some ''LINKS_TO'') (Some ''Node'') None = Inr (pre @ concat rs) \<and>
      generate_data links_graph (Some ''LINKS_TO'') (Some ''Node'') (Some id) None =
        Inr (pre @ concat rs) \<and>
      (\<forall>op \<in> set pre. \<not> is_create_relationship op) \<and>
      list_all2 (\<lambda>(u, v, p) r. \<exists>f t fwd mir.
           f < length (graph_nodes links_graph) \<and> fst (graph_nodes links_graph ! f) = u \<and>
           t < length (graph_nodes links_graph) \<and> fst (graph_nodes links_graph ! t) = v \<and>
           r = [fwd, mir] \<and>
           fwd = get_relationship f t (JStr ''LINKS_TO'') p \<and>
           mir = get_relationship t f (JStr ''LINKS_TO'') p \<and>
           is_create_relationship fwd \<and> is_create_relationship mir \<and>
           request_source fwd = Some f \<and> request_target fwd = Some t \<and>
           request_type fwd = Some (JStr ''LINKS_TO'') \<and> request_data fwd = Some p \<and>
           request_source mir = Some t \<and> request_target mir = Some f \<and>
           request_type mir = Some (JStr ''LINKS_TO'') \<and> request_data mir = Some p)
        (graph_edges links_graph) rs \<and>
      length (filter is_create_relationship (pre @ concat rs)) = 4) \<and>
   request_source (get_relationship 1 0 (JStr ''LINKS_TO'') []) = Some 1 \<and>
   request_target (get_relationship 1 0 (JStr ''LINKS_TO'') []) = Some 0"
proof -
  have wf1: "wf_graph tree_digraph" by (simp add: wf_graph_def tree_digraph_def)
  have wf2: "wf_graph links_graph" by (simp add: wf_graph_def links_graph_def)
  have d1: "is_digraph tree_digraph" "length (graph_edges tree_digraph) = 2"
    by (simp_all add: tree_digraph_def)
  have d2: "\<not> is_digraph links_graph" "length (graph_edges links_graph) = 2"
    by (simp_all add: links_graph_def)
  have rn: "\<And>n p ty. resolve_ename (Some n) None p = Inr ty \<longleftrightarrow> ty = JStr n"
    by (auto simp: resolve_ename_def)
  have c: "request_source (get_relationship 1 0 (JStr ''LINKS_TO'') []) = Some 1 \<and>
   request_target (get_relationship 1 0 (JStr ''LINKS_TO'') []) = Some 0"
    by code_simp
  from relationships_per_edge [OF wf1, where name = "Some ''LINK_TO''" and key = None
      and label = "Some ''ITEM''" and enc = id]
  have a: "\<exists>pre rs. entities tree_digraph (Some ''LINK_TO'') (Some ''ITEM'') None = Inr (pre @ concat rs) \<and>
      generate_data tree_digraph (Some ''LINK_TO'') (Some ''ITEM'') (Some id) None =
        Inr (pre @ concat rs) \<and>
      (\<forall>op \<in> set pre. \<not> is_create_relationship op) \<and>
      list_all2 (\<lambda>(u, v, p) r. \<exists>f t fwd.
           f < length (graph_nodes tree_digraph) \<and> fst (graph_nodes tree_digraph ! f) = u \<and>
           t < length (graph_nodes tree_digraph) \<and> fst (graph_nodes tree_digraph ! t) = v \<and>
           r = [fwd] \<and> fwd = get_relationship f t (JStr ''LINK_TO'') p \<and>
           is_create_relationship fwd \<and>
           request_source fwd = Some f \<and> request_target fwd = Some t \<and>
           request_type fwd = Some (JStr ''LINK_TO'') \<and> request_data fwd = Some p)
        (graph_edges tree_digraph) rs \<and>
      length (filter is_create_relationship (pre @ concat rs)) = 2"
    by (simp add: d1 rn)
  from relationships_per_edge [OF wf2, where name = "Some ''LINKS_TO''" and key = None
      and label = "Some ''Node''" and enc = id]
  have b: "\<exists>pre rs. entities links_graph (Some ''LINKS_TO'') (Some ''Node'') None = Inr (pre @ concat rs) \<and>
      generate_data links_graph (Some ''LINKS_TO'') (Some ''Node'') (Some id) None =
        Inr (pre @ concat rs) \<and>
      (\<forall>op \<in> set pre. \<not> is_create_relationship op) \<and>
      list_all2 (\<lambda>(u, v, p) r. \<exists>f t fwd mir.
           f < length (graph_nodes links_graph) \<and> fst (graph_nodes links_graph ! f) = u \<and>
           t < length (graph_nodes links_graph) \<and> fst (graph_nodes links_graph ! t) = v \<and>
           r = [fwd, mir] \<and>
           fwd = get_relationship f t (JStr ''LINKS_TO'') p \<and>
           mir = get_relationship t f (JStr ''LINKS_TO'') p \<and>
           is_create_relationship fwd \<and> is_create_relationship mir \<and>
           request_source fwd = Some f \<and> request_target fwd = Some t \<and>
           request_type fwd = Some (JStr ''LINKS_TO'') \<and> request_data fwd = Some p \<and>
           request_source mir = Some t \<and> request_target mir = Some f \<and>
           request_type mir = Some (JStr ''LINKS_TO'') \<and> request_data mir = Some p)
        (graph_edges links_graph) rs \<and>
      length (filter is_create_relationship (pre @ concat rs)) = 4"
    by (simp add: d2 rn)
  from wf1 wf2 a b c show ?thesis by blast
qed

text \<open>
  C10. In an undirected graph, the two requests of a self-loop \<open>(u, u)\<close> are one and
  the same request, twice in a row: both references are the placeholder of \<open>u\<close>. The
  requests of the edges after the loop follow, two for each.
\<close>

theorem self_loop_duplicated:
  assumes wf: "wf_graph g"
    and naming: "name \<noteq> None \<or>
      (\<exists>k. key = Some k \<and> (\<forall>(u, v, p) \<in> set (graph_edges g). map_of p k \<noteq> None))"
    and undirected: "\<not> is_digraph g"
    and loop: "graph_edges g = es1 @ (u, u, p) # es2"
  shows "\<exists>pre op post. entities g name label key = Inr (pre @ [op, op] @ post) \<and>
           generate_data g name label (Some enc) key = Inr (enc (pre @ [op, op] @ post)) \<and>
           (\<exists>f ty. f < length (graph_nodes g) \<and> fst (graph_nodes g ! f) = u \<and>
                    resolve_ename name key p = Inr ty \<and>
                    op = get_relationship f f ty p) \<and>
           is_create_relationship op \<and>
           length post = 2 * length es2"
proof -
  let ?pre = "map (\<lambda>(i, n, p). get_node i p) (enumerate 0 (graph_nodes g)) @
      (if truthy label then map (\<lambda>i. get_label i (the label)) [0..<length (graph_nodes g)] else [])"
  let ?R = "\<lambda>(u, v, p) r. \<exists>f t ty.
            (f < length (graph_nodes g) \<and> fst (graph_nodes g ! f) = u \<and>
            t < length (graph_nodes g) \<and> fst (graph_nodes g ! t) = v \<and>
            resolve_ename name key p = Inr ty) \<and>
            r = get_relationship f t ty p #
                (if is_digraph g then [] else [get_relationship t f ty p])"
  from entities_decompose [OF wf naming, of label] obtain rs where
    e: "entities g name label key = Inr (?pre @ concat rs)" and
    all: "list_all2 ?R (graph_edges g) rs"
    by auto
  from all obtain rs1 r rs2 where
    rs: "rs = rs1 @ r # rs2" and r: "?R (u, u, p) r" and all2: "list_all2 ?R es2 rs2"
    unfolding loop by (blast dest: list_all2_split)
  from r undirected obtain f t ty where
    f: "f < length (graph_nodes g)" "fst (graph_nodes g ! f) = u" and
    t: "t < length (graph_nodes g)" "fst (graph_nodes g ! t) = u" and
    ty: "resolve_ename name key p = Inr ty" and
    req: "r = [get_relationship f t ty p, get_relationship t f ty p]"
    by auto
  from wf have "distinct (map fst (graph_nodes g))" by (simp add: wf_graph_def)
  with f t have "f = t"
    using nth_eq_iff_index_eq [of "map fst (graph_nodes g)" f t] by simp
  with req have req': "r = [get_relationship f f ty p, get_relationship f f ty p]" by simp
  have len: "length (concat rs2) = 2 * length es2"
    using rel_ops_length [OF all2] undirected by simp
  have e': "entities g name label key =
      Inr ((?pre @ concat rs1) @ [get_relationship f f ty p, get_relationship f f ty p] @ concat rs2)"
    using e rs req' by simp
  note gd = generate_data_encodes [OF e', of enc]
  have "\<exists>f' ty'. f' < length (graph_nodes g) \<and> fst (graph_nodes g ! f') = u \<and>
      resolve_ename name key p = Inr ty' \<and>
      get_relationship f f ty p = get_relationship f' f' ty' p"
    using f ty by blast
  moreover have "is_create_relationship (get_relationship f f ty p)" by simp
  ultimately show ?thesis using e' gd len by blast
qed

theorem self_loop_duplicated_witness:
  "wf_graph loop_graph \<and> \<not> is_digraph loop_graph \<and>
   graph_edges loop_graph = [(''a'', ''b'', [])] @ (''b'', ''b'', [(''w'', JInt 1)]) # [] \<and>
   (\<exists>pre op post. entities loop_graph (Some ''LINKS_TO'') None None = Inr (pre @ [op, op] @ post) \<and>
      generate_data loop_graph (Some ''LINKS_TO'') None (Some id) None =
        Inr (pre @ [op, op] @ post) \<and>
      (\<exists>f. f < length (graph_nodes loop_graph) \<and> fst (graph_nodes loop_graph ! f) = ''b'' \<and>
               op = get_relationship f f (JStr ''LINKS_TO'') [(''w'', JInt 1)]) \<and>
      is_create_relationship op \<and>
      length post = 0)"
proof -
  have wf: "wf_graph loop_graph" by (simp add: wf_graph_def loop_graph_def)
  have u: "\<not> is_digraph loop_graph" by (simp add: loop_graph_def)
  have es: "graph_edges loop_graph = [(''a'', ''b'', [])] @ (''b'', ''b'', [(''w'', JInt 1)]) # []"
    by (simp add: loop_graph_def)
  have rn: "\<And>n p ty. resolve_ename (Some n) None p = Inr ty \<longleftrightarrow> ty = JStr n"
    by (auto simp: resolve_ename_def)
  from self_loop_duplicated [OF wf _ u es, where name = "Some ''LINKS_TO''" and key = None
      and label = None and enc = id]
  show ?thesis using wf u es by (simp add: rn)
qed

subsection \<open>Node requests, label requests and their order\<close>

text \<open>
  C3, as the code has it. When every edge gets a relationship name, the call returns and
  the encoded list is the node requests, then the label requests, then the relationship
  requests, and each part holds all the requests of its kind. The node requests are one
  per node; the \<^verbatim>\<open>id\<close> entries read from them are \<open>0, 1, ..., N - 1\<close> in the order of the
  nodes, and their bodies are the properties of the nodes. The label requests are one
  per node, addressed to the temp-ids \<open>0, 1, ..., N - 1\<close> in this order, when the label
  is a non-empty string; there is none when the label is \<^verbatim>\<open>None\<close> or the empty string,
  because line 89 tests the truth value of \<^verbatim>\<open>label\<close>.
\<close>

theorem nodes_labels_relationships_order:
  assumes wf: "wf_graph g"
    and naming: "name \<noteq> None \<or>
      (\<exists>k. key = Some k \<and> (\<forall>(u, v, p) \<in> set (graph_edges g). map_of p k \<noteq> None))"
  shows "\<exists>ns ls rs. entities g name label key = Inr (ns @ ls @ rs) \<and>
           generate_data g name label (Some enc) key = Inr (enc (ns @ ls @ rs)) \<and>
           ns = map (\<lambda>(i, n, p). get_node i p) (enumerate 0 (graph_nodes g)) \<and>
           ls = (case label of
                   None \<Rightarrow> []
                 | Some l \<Rightarrow> if l = [] then []
                             else map (\<lambda>i. get_label i l) [0..<length (graph_nodes g)]) \<and>
           filter is_create_node (ns @ ls @ rs) = ns \<and>
           filter is_add_label (ns @ ls @ rs) = ls \<and>
           filter is_create_relationship (ns @ ls @ rs) = rs \<and>
           length ns = length (graph_nodes g) \<and>
           length ls = (if truthy label then length (graph_nodes g) else 0) \<and>
           map node_request_id ns = map (\<lambda>i. Some (int i)) [0..<length (graph_nodes g)] \<and>
           map node_request_properties ns = map (\<lambda>(n, p). Some p) (graph_nodes g) \<and>
           map label_request_node ls =
             (if truthy label then map Some [0..<length (graph_nodes g)] else []) \<and>
           list_all (\<lambda>op. label_request_label op = label) ls"
proof -
  let ?ns = "map (\<lambda>(i, n, p). get_node i p) (enumerate 0 (graph_nodes g))"
  let ?ls = "if truthy label then map (\<lambda>i. get_label i (the label)) [0..<length (graph_nodes g)] else []"
  from entities_decompose [OF wf naming, of label] obtain rs where
    e: "entities g name label key = Inr (?ns @ ?ls @ concat rs)" and
    all: "list_all2 (\<lambda>(u, v, p) r. \<exists>f t ty.
            (f < length (graph_nodes g) \<and> fst (graph_nodes g ! f) = u \<and>
            t < length (graph_nodes g) \<and> fst (graph_nodes g ! t) = v \<and>
            resolve_ename name key p = Inr ty) \<and>
            r = get_relationship f t ty p #
                (if is_digraph g then [] else [get_relationship t f ty p]))
           (graph_edges g) rs"
    by auto
  note gd = generate_data_encodes [OF e, of enc]
  note cl = rel_ops_classified [OF all]
  have r1: "filter is_create_relationship (concat rs) = concat rs"
    by (rule filter_all) (use cl in blast)
  have r2: "filter is_create_node (concat rs) = []"
    by (rule filter_none) (use cl in blast)
  have r3: "filter is_add_label (concat rs) = []"
    by (rule filter_none) (use cl in blast)
  have ls: "?ls = (case label of
                   None \<Rightarrow> []
                 | Some l \<Rightarrow> if l = [] then []
                             else map (\<lambda>i. get_label i l) [0..<length (graph_nodes g)])"
    by (cases label) simp_all
  have f1: "filter is_create_node (?ns @ ?ls @ concat rs) = ?ns" by (simp add: r2)
  have f2: "filter is_add_label (?ns @ ?ls @ concat rs) = ?ls" by (simp add: r3)
  have f3: "filter is_create_relationship (?ns @ ?ls @ concat rs) = concat rs" by (simp add: r1)
  have l1: "length ?ns = length (graph_nodes g)" by simp
  have l2: "length ?ls = (if truthy label then length (graph_nodes g) else 0)" by simp
  have n1: "map node_request_id ?ns = map (\<lambda>i. Some (int i)) [0..<length (graph_nodes g)]"
    using node_requests_read(1) [of 0 "graph_nodes g"] by simp
  have n2: "map node_request_properties ?ns = map (\<lambda>(n, p). Some p) (graph_nodes g)"
    by (rule node_requests_read(2))
  have b1: "map label_request_node ?ls =
             (if truthy label then map Some [0..<length (graph_nodes g)] else [])"
    by (simp add: label_requests_read del: map_map)
  have b2: "list_all (\<lambda>op. label_request_label op = label) ?ls"
    by (cases label) (auto simp: list_all_iff)
  show ?thesis
    apply (rule exI [of _ ?ns])
    apply (rule exI [of _ ?ls])
    apply (rule exI [of _ "concat rs"])
    using e gd ls f1 f2 f3 l1 l2 n1 n2 b1 b2 by (intro conjI) simp_all
qed

theorem nodes_labels_relationships_order_witness:
  "wf_graph links_graph \<and>
   (\<exists>ns ls rs. entities links_graph (Some ''LINKS_TO'') (Some ''Node'') None = Inr (ns @ ls @ rs) \<and>
      generate_data links_graph (Some ''LINKS_TO'') (Some ''Node'') (Some id) None =
        Inr (ns @ ls @ rs) \<and>
      ns = [get_node 0 [], get_node 1 [], get_node 2 []] \<and>
      ls = [get_label 0 ''Node'', get_label 1 ''Node'', get_label 2 ''Node''] \<and>
      filter is_create_node (ns @ ls @ rs) = ns \<and>
      filter is_add_label (ns @ ls @ rs) = ls \<and>
      filter is_create_relationship (ns @ ls @ rs) = rs \<and>
      length ns = 3 \<and> length ls = 3 \<and>
      map node_request_id ns = [Some 0, Some 1, Some 2] \<and>
      map node_request_properties ns = [Some [], Some [], Some []] \<and>
      map label_request_node ls = [Some 0, Some 1, Some 2] \<and>
      list_all (\<lambda>op. label_request_label op = Some ''Node'') ls)"
proof -
  have wf: "wf_graph links_graph" by (simp add: wf_graph_def links_graph_def)
  have ns: "map (\<lambda>(i, n, p). get_node i p) (enumerate 0 (graph_nodes links_graph)) =
      [get_node 0 [], get_node 1 [], get_node 2 []]"
    by code_simp
  have ls: "map (\<lambda>i. get_label i ''Node'') [0..<length (graph_nodes links_graph)] =
      [get_label 0 ''Node'', get_label 1 ''Node'', get_label 2 ''Node'']"
    by code_simp
  have n: "length (graph_nodes links_graph) = 3" by (simp add: links_graph_def)
  from nodes_labels_relationships_order [OF wf, where name = "Some ''LINKS_TO''" and key = None
      and label = "Some ''Node''" and enc = id]
  obtain ns' ls' rs where
    e: "entities links_graph (Some ''LINKS_TO'') (Some ''Node'') None = Inr (ns' @ ls' @ rs)" and
    gd: "generate_data links_graph (Some ''LINKS_TO'') (Some ''Node'') (Some id) None =
        Inr (id (ns' @ ls' @ rs))" and
    ns': "ns' = map (\<lambda>(i, n, p). get_node i p) (enumerate 0 (graph_nodes links_graph))" and
    ls': "ls' = (case Some ''Node'' of
                   None \<Rightarrow> []
                 | Some l \<Rightarrow> if l = [] then []
                             else map (\<lambda>i. get_label i l) [0..<length (graph_nodes links_graph)])" and
    f: "filter is_create_node (ns' @ ls' @ rs) = ns'"
       "filter is_add_label (ns' @ ls' @ rs) = ls'"
       "filter is_create_relationship (ns' @ ls' @ rs) = rs"
    by blast
  from ns' ns have ns'': "ns' = [get_node 0 [], get_node 1 [], get_node 2 []]" by simp
  from ls' ls have ls'': "ls' = [get_label 0 ''Node'', get_label 1 ''Node'', get_label 2 ''Node'']"
    by simp
  have rd: "map node_request_id ns' = [Some 0, Some 1, Some 2] \<and>
      map node_request_properties ns' = [Some [], Some [], Some []] \<and>
      map label_request_node ls' = [Some 0, Some 1, Some 2] \<and>
      list_all (\<lambda>op. label_request_label op = Some ''Node'') ls'"
    unfolding ns'' ls'' by simp
  have len: "length ns' = 3 \<and> length ls' = 3" unfolding ns'' ls'' by simp
  from wf e gd f rd len ns'' ls'' show ?thesis by auto
qed

text \<open>
  C3 as stated counts a label request per node whenever a label is given. With the
  empty string as the label, a graph of one node gets its node request and no label
  request.
\<close>

theorem empty_label_order_counterexample:
  "generate_data \<lparr>is_digraph = True, graph_nodes = [(''n'', [])], graph_edges = []\<rparr>
     (Some ''LINKS_TO'') (Some '''') (Some id) None = Inr [get_node 0 []] \<and>
   filter is_add_label [get_node 0 []] = []"
  by code_simp

text \<open>
  C8, as the code has it. When every edge gets a relationship name, the call returns, and
  the label requests of the encoded list are one per node, with the placeholders
  \<open>{0}, {1}, ...\<close> in the order of the node requests, when the label is a non-empty
  string; there is none when the label is \<^verbatim>\<open>None\<close> or the empty string.
\<close>

theorem add_label_for_each_node:
  assumes wf: "wf_graph g"
    and naming: "name \<noteq> None \<or>
      (\<exists>k. key = Some k \<and> (\<forall>(u, v, p) \<in> set (graph_edges g). map_of p k \<noteq> None))"
  shows "\<exists>ents. entities g name label key = Inr ents \<and>
           generate_data g name label (Some enc) key = Inr (enc ents) \<and>
           filter is_create_node ents =
             map (\<lambda>(i, n, p). get_node i p) (enumerate 0 (graph_nodes g)) \<and>
           filter is_add_label ents =
             (case label of
                None \<Rightarrow> []
              | Some l \<Rightarrow> if l = [] then []
                          else map (\<lambda>i. get_label i l) [0..<length (graph_nodes g)])"
proof -
  let ?ns = "map (\<lambda>(i, n, p). get_node i p) (enumerate 0 (graph_nodes g))"
  let ?ls = "if truthy label then map (\<lambda>i. get_label i (the label)) [0..<length (graph_nodes g)] else []"
  from entities_decompose [OF wf naming, of label] obtain rs where
    e: "entities g name label key = Inr (?ns @ ?ls @ concat rs)" and
    all: "list_all2 (\<lambda>(u, v, p) r. \<exists>f t ty.
            (f < length (graph_nodes g) \<and> fst (graph_nodes g ! f) = u \<and>
            t < length (graph_nodes g) \<and> fst (graph_nodes g ! t) = v \<and>
            resolve_ename name key p = Inr ty) \<and>
            r = get_relationship f t ty p #
                (if is_digraph g then [] else [get_relationship t f ty p]))
           (graph_edges g) rs"
    by auto
  note gd = generate_data_encodes [OF e, of enc]
  note cl = rel_ops_classified [OF all]
  have r2: "filter is_create_node (concat rs) = []"
    by (rule filter_none) (use cl in blast)
  have r3: "filter is_add_label (concat rs) = []"
    by (rule filter_none) (use cl in blast)
  have ls: "?ls = (case label of
                   None \<Rightarrow> []
                 | Some l \<Rightarrow> if l = [] then []
                             else map (\<lambda>i. get_label i l) [0..<length (graph_nodes g)])"
    by (cases label) simp_all
  have f1: "filter is_create_node (?ns @ ?ls @ concat rs) = ?ns" by (simp add: r2)
  have f2: "filter is_add_label (?ns @ ?ls @ concat rs) = ?ls" by (simp add: r3)
  from e gd f1 f2 ls show ?thesis by simp
qed

theorem add_label_for_each_node_witness:
  "wf_graph tree_digraph \<and>
   (\<exists>ents. entities tree_digraph (Some ''LINK_TO'') (Some ''ITEM'') None = Inr ents \<and>
      generate_data tree_digraph (Some ''LINK_TO'') (Some ''ITEM'') (Some id) None = Inr ents \<and>
      filter is_create_node ents =
        [get_node 0 [], get_node 1 [], get_node 2 [(''debug'', JStr ''test'')]] \<and>
      filter is_add_label ents =
        [get_label 0 ''ITEM'', get_label 1 ''ITEM'', get_label 2 ''ITEM''])"
proof -
  have wf: "wf_graph tree_digraph" by (simp add: wf_graph_def tree_digraph_def)
  have ns: "map (\<lambda>(i, n, p). get_node i p) (enumerate 0 (graph_nodes tree_digraph)) =
      [get_node 0 [], get_node 1 [], get_node 2 [(''debug'', JStr ''test'')]]"
    by code_simp
  have ls: "map (\<lambda>i. get_label i ''ITEM'') [0..<length (graph_nodes tree_digraph)] =
      [get_label 0 ''ITEM'', get_label 1 ''ITEM'', get_label 2 ''ITEM'']"
    by code_simp
  from add_label_for_each_node [OF wf, where name = "Some ''LINK_TO''" and key = None
      and label = "Some ''ITEM''" and enc = id]
  show ?thesis using wf by (simp add: ns ls)
qed

text \<open>
  C8 as stated includes the empty string among the labels that get their requests. On
  the graph of the round trip, the label \<^verbatim>\<open>""\<close> gives three node requests and four
  relationship requests, and no label request.
\<close>

theorem empty_label_counterexample:
  "generate_data links_graph (Some ''LINKS_TO'') (Some '''') (Some id) None =
     Inr [get_node 0 [], get_node 1 [], get_node 2 [],
          get_relationship 0 1 (JStr ''LINKS_TO'') [], get_relationship 1 0 (JStr ''LINKS_TO'') [],
          get_relationship 1 2 (JStr ''LINKS_TO'') [], get_relationship 2 1 (JStr ''LINKS_TO'') []] \<and>
   filter is_add_label
         [get_node 0 [], get_node 1 [], get_node 2 [],
          get_relationship 0 1 (JStr ''LINKS_TO'') [], get_relationship 1 0 (JStr ''LINKS_TO'') [],
          get_relationship 1 2 (JStr ''LINKS_TO'') [], get_relationship 2 1 (JStr ''LINKS_TO'') []] = []"
  by code_simp

section \<open>Properties of the response validator\<close>

text \<open>
  C5, as the code has it. A response with status 200 passes. With another status and the
  JSON content type, a body that decodes to a dictionary with the key \<^verbatim>\<open>errors\<close> raises
  the \<open>Exception\<close> whose one argument is the value of that key. With another status and
  any other content type, the \<open>Exception\<close> has the two arguments
  \<^verbatim>\<open>"Unknown server error."\<close> and the raw body.
\<close>

theorem check_exception_cases:
  "(status_code r = 200 \<longrightarrow> check_exception r = Inr ()) \<and>
   (status_code r \<noteq> 200 \<and>
    lower (dict_get (headers r) ''content-type'' '''') = JSON_CONTENT_TYPE \<and>
    json r = Inr (JObj d) \<and> map_of d ''errors'' = Some errors \<longrightarrow>
      check_exception r = Inl (Exception [errors])) \<and>
   (status_code r \<noteq> 200 \<and>
    lower (dict_get (headers r) ''content-type'' '''') \<noteq> JSON_CONTENT_TYPE \<longrightarrow>
      check_exception r = Inl (Exception [JStr ''Unknown server error.'', JStr (content r)]))"
  by (simp add: check_exception_def)

theorem check_exception_cases_witness:
  "status_code ok_response = 200 \<and> check_exception ok_response = Inr () \<and>
   status_code json_error_response \<noteq> 200 \<and>
   lower (dict_get (headers json_error_response) ''content-type'' '''') = JSON_CONTENT_TYPE \<and>
   json json_error_response = Inr (JObj [(''errors'', JArr [JStr ''boom''])]) \<and>
   check_exception json_error_response = Inl (Exception [JArr [JStr ''boom'']]) \<and>
   status_code html_error_response \<noteq> 200 \<and>
   lower (dict_get (headers html_error_response) ''content-type'' '''') \<noteq> JSON_CONTENT_TYPE \<and>
   check_exception html_error_response =
     Inl (Exception [JStr ''Unknown server error.'', JStr ''Server Error''])"
proof -
  have a: "status_code ok_response = 200" by (simp add: ok_response_def)
  have b: "status_code json_error_response \<noteq> 200"
    "json json_error_response = Inr (JObj [(''errors'', JArr [JStr ''boom''])])"
    "map_of [(''errors'', JArr [JStr ''boom''])] ''errors'' = Some (JArr [JStr ''boom''])"
    by (simp_all add: json_error_response_def)
  have b': "lower (dict_get (headers json_error_response) ''content-type'' '''') = JSON_CONTENT_TYPE"
    by code_simp
  have c: "status_code html_error_response \<noteq> 200"
    "content html_error_response = ''Server Error''"
    by (simp_all add: html_error_response_def)
  have c': "lower (dict_get (headers html_error_response) ''content-type'' '''') \<noteq> JSON_CONTENT_TYPE"
    by code_simp
  from check_exception_cases [of ok_response] a
  have 1: "check_exception ok_response = Inr ()" by simp
  from check_exception_cases [of json_error_response "[(''errors'', JArr [JStr ''boom''])]"
      "JArr [JStr ''boom'']"] b b'
  have 2: "check_exception json_error_response = Inl (Exception [JArr [JStr ''boom'']])" by simp
  from check_exception_cases [of html_error_response] c c'
  have 3: "check_exception html_error_response =
     Inl (Exception [JStr ''Unknown server error.'', JStr ''Server Error''])" by simp
  from a b b' c c' 1 2 3 show ?thesis by simp
qed

text \<open>
  C5 as stated promises the exception with the reported errors for every response of
  another status and the JSON content type. The response of the repository's
  \<^verbatim>\<open>test_failure_json\<close> is one, and its body has no key \<^verbatim>\<open>errors\<close>: line 133 raises
  \<open>KeyError\<close>.
\<close>

theorem json_without_errors_counterexample:
  "status_code failure_json_response \<noteq> 200 \<and>
   lower (dict_get (headers failure_json_response) ''content-type'' '''') = JSON_CONTENT_TYPE \<and>
   json failure_json_response =
     Inr (JObj [(''exception'', JStr ''Error''), (''stacktrace'', JInt 1)]) \<and>
   check_exception failure_json_response = Inl (KeyError (Some ''errors''))"
  by code_simp

text \<open>
  C9. The content type counts as JSON when, lower-cased, it is the string
  \<^verbatim>\<open>application/json; charset=utf-8\<close> and only then: with a status other than 200 and
  any other content type (\<^verbatim>\<open>application/json\<close> alone, for one) the result is the
  \<open>Exception\<close> with \<^verbatim>\<open>"Unknown server error."\<close> and the raw body, and the decoded body
  is read on the other branch only.
\<close>

theorem exact_json_content_type:
  assumes "status_code r \<noteq> 200"
  shows "JSON_CONTENT_TYPE = ''application/json; charset=utf-8'' \<and>
     (lower (dict_get (headers r) ''content-type'' '''') \<noteq> ''application/json; charset=utf-8'' \<longrightarrow>
        check_exception r = Inl (Exception [JStr ''Unknown server error.'', JStr (content r)])) \<and>
     (lower (dict_get (headers r) ''content-type'' '''') = ''application/json; charset=utf-8'' \<longrightarrow>
        check_exception r =
          (case json r of
             Inl e \<Rightarrow> Inl e
           | Inr result_json \<Rightarrow>
               (case subscript result_json ''errors'' of
                  Inl e \<Rightarrow> Inl e
                | Inr errors \<Rightarrow> Inl (Exception [errors]))))"
  using assms by (simp add: check_exception_def JSON_CONTENT_TYPE_def)

theorem exact_json_content_type_witness:
  \<open>status_code non_json_response \<noteq> 200 \<and>
   dict_get (headers non_json_response) ''content-type'' '''' = ''application/json'' \<and>
   check_exception non_json_response =
     Inl (Exception [JStr ''Unknown server error.'', JStr ''{"errors": ["boom"]}'']) \<and>
   status_code json_error_response \<noteq> 200 \<and>
   dict_get (headers json_error_response) ''content-type'' '''' = ''application/json; charset=UTF-8'' \<and>
   check_exception json_error_response = Inl (Exception [JArr [JStr ''boom'']])\<close>
proof -
  have a: "status_code non_json_response \<noteq> 200"
    \<open>content non_json_response = ''{"errors": ["boom"]}''\<close>
    "dict_get (headers non_json_response) ''content-type'' '''' = ''application/json''"
    by (simp_all add: non_json_response_def dict_get_def)
  have a': "lower (dict_get (headers non_json_response) ''content-type'' '''') \<noteq>
      ''application/json; charset=utf-8''"
    by code_simp
  have b: "status_code json_error_response \<noteq> 200"
    "dict_get (headers json_error_response) ''content-type'' '''' = ''application/json; charset=UTF-8''"
    "json json_error_response = Inr (JObj [(''errors'', JArr [JStr ''boom''])])"
    by (simp_all add: json_error_response_def dict_get_def)
  have b': "lower (dict_get (headers json_error_response) ''content-type'' '''') =
      ''application/json; charset=utf-8''"
    by code_simp
  from exact_json_content_type [OF a(1)] a a'
  have 1: \<open>check_exception non_json_response =
     Inl (Exception [JStr ''Unknown server error.'', JStr ''{"errors": ["boom"]}''])\<close>
    by simp
  from exact_json_content_type [OF b(1)] b b'
  have 2: "check_exception json_error_response = Inl (Exception [JArr [JStr ''boom'']])"
    by simp
  from a b 1 2 show ?thesis by simp
qed

section \<open>Properties of the graph reconstructor\<close>

subsection \<open>Auxiliary facts\<close>











subsection \<open>A node record without an integer at the end of its URL\<close>




subsection \<open>The graph of well-formed records\<close>




end
